theory Spec2Isabelle
  imports Main
begin

section \<open>Data model of package a2a\<close>

text \<open>
  Modelled from the spec: the declarations of the types Message, Task, TaskStatus,
  TaskState, Artifact, TaskStatusUpdateEvent and TaskArtifactUpdateEvent and of the
  interfaces Event and SendMessageResult of package a2a.  The source uses them
  throughout, but the file that declares them is not part of it.  The records below have
  the fields that the source reads or writes, with the names of the source, and the
  data model of the specification gives the rest (the states of a task, the timestamp
  of a status).
\<close>

type_synonym TaskID = string

text \<open>
  A Go value of static type \<open>any\<close>, as stored in a Metadata map.  Slices of type
  \<open>[]any\<close> and maps of type \<open>map[string]any\<close> are references: a slice carries the
  address of its first element, which is what \<open>fmt.Sprintf("%p", value)\<close> prints for it,
  and its length; a map carries the address of the map.  The elements live in a store
  (see the metadata validator).  A value of any other dynamic type is \<open>AOther\<close> with
  its type name as \<open>%T\<close> prints it and, when it is a pointer, channel, function, slice
  or map, the address that \<open>%p\<close> prints for it (for the other kinds \<open>%p\<close> prints no
  address).
\<close>

datatype any =
    ANil
  | ABool bool
  | AInt int
  | AInt8 int
  | AInt16 int
  | AInt32 int
  | AInt64 int
  | AFloat32 nat
  | AFloat64 nat
  | AString string
  | ASliceAny nat nat
  | AMapStringAny nat
  | AOther string "nat option"

record Message =
  msg_ID :: string
  msg_ContextID :: string
  msg_TaskID :: TaskID
  msg_Parts :: "string list"
  msg_Metadata :: "(string \<rightharpoonup> any) option"

datatype TaskState =
    TaskStateSubmitted
  | TaskStateWorking
  | TaskStateInputRequired
  | TaskStateAuthRequired
  | TaskStateUnknown
  | TaskStateCompleted
  | TaskStateCanceled
  | TaskStateFailed
  | TaskStateRejected

text \<open>A pointer \<open>*Message\<close> is a \<open>Message option\<close>; \<open>None\<close> is the nil pointer.\<close>

record TaskStatus =
  ts_State :: TaskState
  ts_Message :: "Message option"
  ts_Timestamp :: "string option"

record Artifact =
  art_Name :: string

record Task =
  task_ID :: TaskID
  task_ContextID :: string
  task_Status :: TaskStatus
  task_History :: "Message option list"
  task_Artifacts :: "Artifact list"
  task_Metadata :: "(string \<rightharpoonup> any) option"

record TaskStatusUpdateEvent =
  su_TaskID :: TaskID
  su_ContextID :: string
  su_Status :: TaskStatus
  su_Final :: bool
  su_Metadata :: "(string \<rightharpoonup> any) option"

record TaskArtifactUpdateEvent =
  au_TaskID :: TaskID
  au_ContextID :: string
  au_Artifact :: Artifact

text \<open>
  Tasks are handled through pointers \<open>*a2a.Task\<close>, and the update manager writes through
  them, so tasks live in a store: a pointer is \<open>None\<close> (nil) or \<open>Some a\<close> for an
  address \<open>a\<close>, and reading through a pointer that the store does not bind is the
  nil-pointer panic.
\<close>

type_synonym task_ptr = "nat option"

type_synonym task_store = "nat \<rightharpoonup> Task"

definition deref :: "task_store \<Rightarrow> task_ptr \<Rightarrow> Task option" where
  "deref h p = (case p of None \<Rightarrow> None | Some a \<Rightarrow> h a)"

text \<open>
  The interface \<open>a2a.Event\<close>: the nil interface value, or a pointer to one of the four
  types with an \<open>isEvent\<close> method.  Messages and update events are never written through,
  so they are carried by value.
\<close>

datatype Event =
    EvNil
  | EvMessage Message
  | EvTask task_ptr
  | EvStatusUpdate TaskStatusUpdateEvent
  | EvArtifactUpdate TaskArtifactUpdateEvent

text \<open>What the verb \<open>%T\<close> prints for an event.\<close>

fun type_name :: "Event \<Rightarrow> string" where
  "type_name EvNil = ''<nil>''"
| "type_name (EvMessage _) = ''*a2a.Message''"
| "type_name (EvTask _) = ''*a2a.Task''"
| "type_name (EvStatusUpdate _) = ''*a2a.TaskStatusUpdateEvent''"
| "type_name (EvArtifactUpdate _) = ''*a2a.TaskArtifactUpdateEvent''"

text \<open>
  The types with an \<open>isSendMessageResult\<close> method (TestInterfaceGuards lists them):
  the type assertion \<open>event.(a2a.SendMessageResult)\<close> succeeds on exactly these.
\<close>

fun isSendMessageResult :: "Event \<Rightarrow> bool" where
  "isSendMessageResult (EvMessage _) = True"
| "isSendMessageResult (EvTask _) = True"
| "isSendMessageResult _ = False"

section \<open>Errors, contexts and outcomes of calls\<close>

datatype error =
    ErrQueueClosed
      \<comment> \<open>\<open>errors.New("queue is closed")\<close>\<close>
  | ContextCanceled
  | ContextDeadlineExceeded
  | ErrQueueDoesNotExist TaskID
      \<comment> \<open>\<open>queue cannot be destroyed as queue for taskId: %s does not exist\<close>\<close>
  | ErrTaskNotSet
      \<comment> \<open>\<open>event processor Task not set\<close>\<close>
  | ErrTaskIDsDontMatch TaskID TaskID
      \<comment> \<open>\<open>task IDs don't match: %s != %s\<close>\<close>
  | ErrContextIDsDontMatch string string
      \<comment> \<open>\<open>context IDs don't match: %s != %s\<close>\<close>
  | ErrNotImplemented
  | ErrUnexpectedEventType string
      \<comment> \<open>\<open>unexpected event type %T\<close>, from the update manager\<close>
  | ErrMissingTaskID
      \<comment> \<open>\<open>message is missing TaskID\<close>\<close>
  | ErrFailedToRetrieveQueue error
      \<comment> \<open>\<open>failed to retrieve queue: %w\<close>\<close>
  | ErrFailedToReadEvent error
      \<comment> \<open>\<open>failed to read event from queue: %w\<close>\<close>
  | ErrHandlerUnexpectedEventType string
      \<comment> \<open>\<open>unexpected event type: %T\<close>, from the request handler\<close>
  | ErrCircularReference
      \<comment> \<open>\<open>circular reference in Metadata\<close>\<close>
  | ErrNotPermitted string
      \<comment> \<open>\<open>%T is not permitted in Metadata, must be one of ...\<close>\<close>
  | ErrExternal string
      \<comment> \<open>an error made by a collaborator (a Saver, an AgentExecutor, ...)\<close>

text \<open>
  A \<open>context.Context\<close> as the queue sees it: \<open>ctx.Err()\<close> is nil while the context is
  live, and the channel \<open>ctx.Done()\<close> is closed (ready to receive from) once it is not.
\<close>

datatype ctx = Ctx (ctx_Err: "error option")

definition ctx_Done :: "ctx \<Rightarrow> bool" where
  "ctx_Done ctx = (ctx_Err ctx \<noteq> None)"

text \<open>
  A call returns, or waits for another goroutine (\<open>Blocks\<close>: no other goroutine runs
  in this sequential model, so the call stops there), or panics.
\<close>

datatype 'a outcome = Returns 'a | Blocks | Panics

text \<open>
  A \<open>select\<close> statement without default: each case is listed in source order with its
  readiness and what taking it yields.  Go takes one of the ready cases by a uniform
  pseudo-random choice; the number \<open>pick\<close> is that choice.  With no ready case the
  statement waits (\<open>None\<close>).
\<close>

definition select :: "nat \<Rightarrow> (bool \<times> 'a) list \<Rightarrow> 'a option" where
  "select pick cases =
     (let ready = map snd (filter fst cases)
      in if ready = [] then None else Some (ready ! (pick mod length ready)))"

section \<open>The in-memory event queue\<close>

text \<open>
  The source file of the queue holds two revisions of it.  They differ in Close only,
  which sets \<open>closed\<close> before closing \<open>closeChan\<close> in the first and after closing
  \<open>events\<close> in the second.  What follows is the first; between calls the two Close
  compute the same.
\<close>

text \<open>
  The semaphore is a buffered channel \<open>tokens\<close> of capacity \<open>count\<close>: acquiring sends
  to it, releasing receives from it.
\<close>

record semaphore =
  tokens :: nat
  count :: nat

definition newSemaphore :: "nat \<Rightarrow> semaphore" where
  "newSemaphore n = \<lparr>tokens = 0, count = n\<rparr>"

definition acquire :: "semaphore \<Rightarrow> semaphore option" where
  "acquire s = (if tokens s < count s then Some (s\<lparr>tokens := tokens s + 1\<rparr>) else None)"

definition acquireWithContext ::
  "nat \<Rightarrow> ctx \<Rightarrow> semaphore \<Rightarrow> (error option \<times> semaphore) option" where
  "acquireWithContext pick ctx s =
     select pick
       [(tokens s < count s, (None, s\<lparr>tokens := tokens s + 1\<rparr>)),
        (ctx_Done ctx, (ctx_Err ctx, s))]"

text \<open>
  \<open>release\<close> receives a token.  Both callers defer it right after a successful
  acquire, so a token is there and the receive does not wait.
\<close>

definition release :: "semaphore \<Rightarrow> semaphore" where
  "release s = s\<lparr>tokens := tokens s - 1\<rparr>"

text \<open>
  The queue: the channel \<open>events\<close> is its buffer (oldest first), its capacity and
  whether it has been closed; \<open>closeChan\<close> is never sent to, so only its closing
  matters; \<open>closeMu\<close> is True while a Close holds the mutex.
\<close>

record inMemoryQueue =
  semaphore :: semaphore
  events :: "Event list"
  events_cap :: nat
  events_closed :: bool
  closeMu :: bool
  closed :: bool
  closeChan_closed :: bool

definition NewInMemoryQueue :: "nat \<Rightarrow> inMemoryQueue" where
  "NewInMemoryQueue sz =
     \<lparr>semaphore = newSemaphore 1, events = [], events_cap = sz, events_closed = False,
      closeMu = False, closed = False, closeChan_closed = False\<rparr>"

text \<open>
  Write.  \<open>p1\<close> is the choice of the select in acquireWithContext, \<open>p2\<close> that of the
  select in the body.  A send on a closed channel panics, and the send case of a select
  proceeds (to the panic) on a closed channel.  The deferred release runs on every
  return; a Write that waits in the body still holds the token.
\<close>

definition Write ::
  "nat \<Rightarrow> nat \<Rightarrow> ctx \<Rightarrow> Event \<Rightarrow> inMemoryQueue \<Rightarrow> error option outcome \<times> inMemoryQueue" where
  "Write p1 p2 ctx event q =
     (case acquireWithContext p1 ctx (semaphore q) of
        None \<Rightarrow> (Blocks, q)
      | Some (Some err, s) \<Rightarrow> (Returns (Some err), q)
      | Some (None, s) \<Rightarrow>
          (let q1 = q\<lparr>semaphore := s\<rparr>;
               released = q1\<lparr>semaphore := release s\<rparr>
           in if closed q1 then (Returns (Some ErrQueueClosed), released)
              else
                (case select p2
                   [(events_closed q1 \<or> length (events q1) < events_cap q1,
                       if events_closed q1 then (Panics, q1)
                       else (Returns None, released\<lparr>events := events q1 @ [event]\<rparr>)),
                    (closeChan_closed q1, (Returns (Some ErrQueueClosed), released)),
                    (ctx_Done ctx, (Returns (ctx_Err ctx), released))]
                 of None \<Rightarrow> (Blocks, q1)
                  | Some r \<Rightarrow> r)))"

text \<open>
  Read.  A receive is ready when the buffer holds an event or the channel is closed;
  on a closed and drained channel it yields \<open>ok = false\<close>.
\<close>

definition Read ::
  "nat \<Rightarrow> ctx \<Rightarrow> inMemoryQueue \<Rightarrow> (error + Event) outcome \<times> inMemoryQueue" where
  "Read p ctx q =
     (case select p
        [(events q \<noteq> [] \<or> events_closed q,
            (case events q of
               [] \<Rightarrow> (Returns (Inl ErrQueueClosed), q)
             | event # rest \<Rightarrow> (Returns (Inr event), q\<lparr>events := rest\<rparr>))),
         (ctx_Done ctx,
            (Returns (case ctx_Err ctx of None \<Rightarrow> Inr EvNil | Some err \<Rightarrow> Inl err), q))]
      of None \<Rightarrow> (Blocks, q)
       | Some r \<Rightarrow> r)"

text \<open>
  Close, in the order of the source: lock \<open>closeMu\<close>; return at once when \<open>closed\<close>
  is set; set it; close \<open>closeChan\<close> (closing a closed channel panics); acquire the
  semaphore; close \<open>events\<close>; release and unlock on the way out.
\<close>

definition Close :: "inMemoryQueue \<Rightarrow> error option outcome \<times> inMemoryQueue" where
  "Close q =
     (if closeMu q then (Blocks, q)
      else
        (let q1 = q\<lparr>closeMu := True\<rparr>
         in if closed q1 then (Returns None, q1\<lparr>closeMu := False\<rparr>)
            else
              (let q2 = q1\<lparr>closed := True\<rparr>
               in if closeChan_closed q2 then (Panics, q2)
                  else
                    (let q3 = q2\<lparr>closeChan_closed := True\<rparr>
                     in case acquire (semaphore q3) of
                          None \<Rightarrow> (Blocks, q3)
                        | Some s \<Rightarrow>
                            (let q4 = q3\<lparr>semaphore := s\<rparr>
                             in if events_closed q4 then (Panics, q4)
                                else (Returns None,
                                      q4\<lparr>events_closed := True, semaphore := release s,
                                         closeMu := False\<rparr>))))))"

text \<open>
  Close in the second revision of the source: \<open>closed\<close> is set last, after \<open>events\<close> has
  been closed.
\<close>

definition Close_rev2 :: "inMemoryQueue \<Rightarrow> error option outcome \<times> inMemoryQueue" where
  "Close_rev2 q =
     (if closeMu q then (Blocks, q)
      else
        (let q1 = q\<lparr>closeMu := True\<rparr>
         in if closed q1 then (Returns None, q1\<lparr>closeMu := False\<rparr>)
            else if closeChan_closed q1 then (Panics, q1)
            else
              (let q2 = q1\<lparr>closeChan_closed := True\<rparr>
               in case acquire (semaphore q2) of
                    None \<Rightarrow> (Blocks, q2)
                  | Some s \<Rightarrow>
                      (let q3 = q2\<lparr>semaphore := s\<rparr>
                       in if events_closed q3 then (Panics, q3)
                          else (Returns None,
                                q3\<lparr>events_closed := True, closed := True,
                                   semaphore := release s, closeMu := False\<rparr>)))))"

text \<open>
  A queue between calls: no call is in flight, so the semaphore and the mutex are free,
  and the three closing marks agree.  A new queue is in this state and every call that
  returns leaves the queue in it (shown below for the queues that come about).
\<close>

definition quiescent :: "inMemoryQueue \<Rightarrow> bool" where
  "quiescent q =
     (tokens (semaphore q) = 0 \<and> count (semaphore q) = 1 \<and> \<not> closeMu q \<and>
      events_closed q = closed q \<and> closeChan_closed q = closed q \<and>
      length (events q) \<le> events_cap q)"

text \<open>The queues that come about: a new queue, and a queue after a call that has returned.\<close>

inductive reached :: "inMemoryQueue \<Rightarrow> bool" where
  after_New: "reached (NewInMemoryQueue sz)"
| after_Write: "reached q \<Longrightarrow> Write p1 p2 c e q = (Returns r, q') \<Longrightarrow> reached q'"
| after_Read: "reached q \<Longrightarrow> Read p c q = (Returns x, q') \<Longrightarrow> reached q'"
| after_Close: "reached q \<Longrightarrow> Close q = (Returns r, q') \<Longrightarrow> reached q'"

text \<open>
  Callers' loops, as the queue tests write them: a run of Write calls that all return nil
  (\<open>None\<close> when one does not), a run of Read calls that stops at the first call that does
  not return, and a run of Close calls.  Each call comes with its context and with the
  choices of its selects.
\<close>

fun Writes :: "(nat \<times> nat \<times> ctx \<times> Event) list \<Rightarrow> inMemoryQueue \<Rightarrow> inMemoryQueue option" where
  "Writes [] q = Some q"
| "Writes ((p1, p2, c, e) # ws) q =
     (case Write p1 p2 c e q of
        (Returns None, q') \<Rightarrow> Writes ws q'
      | _ \<Rightarrow> None)"

fun Reads ::
  "(nat \<times> ctx) list \<Rightarrow> inMemoryQueue \<Rightarrow> (error + Event) outcome list \<times> inMemoryQueue" where
  "Reads [] q = ([], q)"
| "Reads ((p, c) # rs) q =
     (case Read p c q of
        (Returns r, q1) \<Rightarrow> (let (rest, q2) = Reads rs q1 in (Returns r # rest, q2))
      | (other, q1) \<Rightarrow> ([other], q1))"

fun Closes :: "nat \<Rightarrow> inMemoryQueue \<Rightarrow> error option outcome list \<times> inMemoryQueue" where
  "Closes 0 q = ([], q)"
| "Closes (Suc n) q =
     (case Close q of
        (Returns r, q1) \<Rightarrow> (let (rest, q2) = Closes n q1 in (Returns r # rest, q2))
      | (other, q1) \<Rightarrow> ([other], q1))"

definition written :: "(nat \<times> nat \<times> ctx \<times> Event) list \<Rightarrow> Event list" where
  "written ws = map (\<lambda>(p1, p2, c, e). e) ws"

definition test_message :: "string \<Rightarrow> Message" where
  "test_message i =
     \<lparr>msg_ID = i, msg_ContextID = [], msg_TaskID = [], msg_Parts = [], msg_Metadata = None\<rparr>"

definition example_writes :: "(nat \<times> nat \<times> ctx \<times> Event) list" where
  "example_writes =
     [(0, 0, Ctx None, EvMessage (test_message ''test-event'')),
      (0, 0, Ctx None, EvMessage (test_message ''test-event2''))]"

section \<open>The in-memory queue manager\<close>

text \<open>
  The manager maps task ids to queues.  A queue is held by reference (the callers of
  GetOrCreate keep writing to a queue that Destroy has removed from the map), so the
  queues live in a store and the map holds their addresses; \<open>next_queue\<close> is the
  address that the next allocation returns.  \<open>mgr_mu\<close> is True while a call holds the
  mutex.
\<close>

record manager_state =
  mgr_mu :: bool
  mgr_queues :: "TaskID \<rightharpoonup> nat"
  queue_store :: "nat \<rightharpoonup> inMemoryQueue"
  next_queue :: nat

definition defaultMaxQueueSize :: nat where
  "defaultMaxQueueSize = 1024"

definition NewInMemoryManager :: manager_state where
  "NewInMemoryManager =
     \<lparr>mgr_mu = False, mgr_queues = Map.empty, queue_store = Map.empty, next_queue = 0\<rparr>"

definition GetOrCreate :: "ctx \<Rightarrow> TaskID \<Rightarrow> manager_state \<Rightarrow> (error + nat) outcome \<times> manager_state" where
  "GetOrCreate c taskId m =
     (if mgr_mu m then (Blocks, m)
      else
        (case mgr_queues m taskId of
           Some a \<Rightarrow> (Returns (Inr a), m)
         | None \<Rightarrow>
             (let a = next_queue m
              in (Returns (Inr a),
                  m\<lparr>queue_store := (queue_store m)(a \<mapsto> NewInMemoryQueue defaultMaxQueueSize),
                    next_queue := Suc a,
                    mgr_queues := (mgr_queues m)(taskId \<mapsto> a)\<rparr>))))"

text \<open>
  Destroy.  The error of Close is dropped (\<open>_ = queue.Close()\<close>); a Close that waits or
  panics does so inside Destroy, with the mutex held.
\<close>

definition Destroy :: "ctx \<Rightarrow> TaskID \<Rightarrow> manager_state \<Rightarrow> error option outcome \<times> manager_state" where
  "Destroy c taskId m =
     (if mgr_mu m then (Blocks, m)
      else
        (case mgr_queues m taskId of
           None \<Rightarrow> (Returns (Some (ErrQueueDoesNotExist taskId)), m)
         | Some a \<Rightarrow>
             (case queue_store m a of
                None \<Rightarrow> (Panics, m)
              | Some q \<Rightarrow>
                  (case Close q of
                     (Returns r, q') \<Rightarrow>
                       (Returns None,
                        m\<lparr>queue_store := (queue_store m)(a \<mapsto> q'),
                          mgr_queues := (mgr_queues m)(taskId := None)\<rparr>)
                   | (other, q') \<Rightarrow>
                       (other, m\<lparr>mgr_mu := True, queue_store := (queue_store m)(a \<mapsto> q')\<rparr>)))))"

text \<open>A Write through a queue reference \<open>a\<close> that a caller holds.\<close>

definition Write_to ::
  "nat \<Rightarrow> nat \<Rightarrow> nat \<Rightarrow> ctx \<Rightarrow> Event \<Rightarrow> manager_state \<Rightarrow> error option outcome \<times> manager_state" where
  "Write_to a p1 p2 c e m =
     (case queue_store m a of
        None \<Rightarrow> (Panics, m)
      | Some q \<Rightarrow>
          (case Write p1 p2 c e q of
             (r, q') \<Rightarrow> (r, m\<lparr>queue_store := (queue_store m)(a \<mapsto> q')\<rparr>)))"

text \<open>A manager with one registered queue, for the task \<open>t1\<close>.\<close>

definition one_queue_manager :: manager_state where
  "one_queue_manager = snd (GetOrCreate (Ctx None) ''t1'' NewInMemoryManager)"

section \<open>The task update manager\<close>

text \<open>
  The interface Saver: \<open>Save(ctx, task)\<close> gets the pointer and sees the task behind it;
  it returns an error or nil and may change its own state \<open>'s\<close>.  It does not write to
  the task (neither the in-memory task store, which copies the task, nor the saver of
  the tests does).
\<close>

type_synonym 's Saver = "'s \<Rightarrow> ctx \<Rightarrow> nat \<Rightarrow> Task \<Rightarrow> error option \<times> 's"

text \<open>
  The Manager struct (the field \<open>Task\<close>, a pointer), the store of tasks that its pointer
  points into, and the state of its Saver.
\<close>

record 's update_state =
  mgr_Task :: task_ptr
  tasks :: task_store
  saver :: 's

text \<open>\<open>validate\<close> compares the ids of the managed task \<open>t\<close> with those of the event.\<close>

definition validate :: "Task \<Rightarrow> TaskID \<Rightarrow> string \<Rightarrow> error option" where
  "validate t taskID contextID =
     (if task_ID t \<noteq> taskID then Some (ErrTaskIDsDontMatch (task_ID t) taskID)
      else if task_ContextID t \<noteq> contextID
        then Some (ErrContextIDsDontMatch (task_ContextID t) contextID)
      else None)"

text \<open>
  updateStatus.  \<open>task := mgr.Task\<close> copies the pointer, so every assignment to a field
  of \<open>task\<close> is an assignment to the managed task at address \<open>a\<close>: the store is updated
  before Save is called, and stays so whatever Save returns.
\<close>

definition updateStatus ::
  "'s Saver \<Rightarrow> ctx \<Rightarrow> nat \<Rightarrow> Task \<Rightarrow> TaskStatusUpdateEvent \<Rightarrow> 's update_state
     \<Rightarrow> error option outcome \<times> 's update_state" where
  "updateStatus save c a t event st =
     (let t1 = (case ts_Message (task_Status t) of
                  None \<Rightarrow> t
                | Some m \<Rightarrow> t\<lparr>task_History := task_History t @ [Some m]\<rparr>);
          t2 = (case su_Metadata event of
                  None \<Rightarrow> t1
                | Some em \<Rightarrow>
                    t1\<lparr>task_Metadata :=
                         Some ((case task_Metadata t1 of None \<Rightarrow> Map.empty | Some tm \<Rightarrow> tm) ++ em)\<rparr>);
          t3 = t2\<lparr>task_Status := su_Status event\<rparr>;
          st1 = st\<lparr>tasks := (tasks st)(a \<mapsto> t3)\<rparr>
      in case save (saver st1) c a t3 of
           (err, sv) \<Rightarrow> (Returns err, st1\<lparr>saver := sv\<rparr>))"

definition updateArtifact ::
  "TaskArtifactUpdateEvent \<Rightarrow> 's update_state \<Rightarrow> error option outcome \<times> 's update_state" where
  "updateArtifact event st = (Returns (Some ErrNotImplemented), st)"

text \<open>
  Process.  Reading a field through a nil pointer (a nil \<open>*a2a.Task\<close> event) panics.
  The type switch has a case for each of the four event types; the default case is left
  for the nil interface value.
\<close>

definition Process ::
  "'s Saver \<Rightarrow> ctx \<Rightarrow> Event \<Rightarrow> 's update_state \<Rightarrow> error option outcome \<times> 's update_state" where
  "Process save c event st =
     (case mgr_Task st of
        None \<Rightarrow> (Returns (Some ErrTaskNotSet), st)
      | Some a \<Rightarrow>
          (case event of
             EvMessage v \<Rightarrow> (Returns None, st)
           | EvTask p \<Rightarrow>
               (case (p, deref (tasks st) p, tasks st a) of
                  (Some b, Some v, Some t) \<Rightarrow>
                    (case validate t (task_ID v) (task_ContextID v) of
                       Some err \<Rightarrow> (Returns (Some err), st)
                     | None \<Rightarrow>
                         (case save (saver st) c b v of
                            (Some err, sv) \<Rightarrow> (Returns (Some err), st\<lparr>saver := sv\<rparr>)
                          | (None, sv) \<Rightarrow> (Returns None, st\<lparr>saver := sv, mgr_Task := Some b\<rparr>)))
                | _ \<Rightarrow> (Panics, st))
           | EvArtifactUpdate v \<Rightarrow>
               (case tasks st a of
                  None \<Rightarrow> (Panics, st)
                | Some t \<Rightarrow>
                    (case validate t (au_TaskID v) (au_ContextID v) of
                       Some err \<Rightarrow> (Returns (Some err), st)
                     | None \<Rightarrow> updateArtifact v st))
           | EvStatusUpdate v \<Rightarrow>
               (case tasks st a of
                  None \<Rightarrow> (Panics, st)
                | Some t \<Rightarrow>
                    (case validate t (su_TaskID v) (su_ContextID v) of
                       Some err \<Rightarrow> (Returns (Some err), st)
                     | None \<Rightarrow> updateStatus save c a t v st))
           | EvNil \<Rightarrow> (Returns (Some (ErrUnexpectedEventType (type_name event))), st)))"

text \<open>
  The ids that an event carries: a Task snapshot (through its pointer) and the two
  update events have them, a Message and the nil event do not.
\<close>

fun event_ids :: "task_store \<Rightarrow> Event \<Rightarrow> (TaskID \<times> string) option" where
  "event_ids h (EvTask p) = map_option (\<lambda>v. (task_ID v, task_ContextID v)) (deref h p)"
| "event_ids h (EvStatusUpdate v) = Some (su_TaskID v, su_ContextID v)"
| "event_ids h (EvArtifactUpdate v) = Some (au_TaskID v, au_ContextID v)"
| "event_ids h _ = None"

text \<open>Applying a list of events one after the other, as the tests of the manager do.\<close>

fun ProcessAll :: "'s Saver \<Rightarrow> ctx \<Rightarrow> Event list \<Rightarrow> 's update_state \<Rightarrow> 's update_state" where
  "ProcessAll save c [] st = st"
| "ProcessAll save c (e # es) st = ProcessAll save c es (snd (Process save c e st))"

text \<open>The savers of the tests: one that records the pointer, one that fails.\<close>

definition recording_saver :: "nat option Saver" where
  "recording_saver s c a t = (None, Some a)"

definition failing_saver :: "nat option Saver" where
  "failing_saver s c a t = (Some (ErrExternal ''saver failed''), s)"

definition newTestTask :: Task where
  "newTestTask =
     \<lparr>task_ID = ''task-1'', task_ContextID = ''context-1'',
      task_Status = \<lparr>ts_State = TaskStateSubmitted, ts_Message = None, ts_Timestamp = None\<rparr>,
      task_History = [], task_Artifacts = [], task_Metadata = None\<rparr>"

definition newStatusUpdate :: "Task \<Rightarrow> TaskState \<Rightarrow> Message option \<Rightarrow> TaskStatusUpdateEvent" where
  "newStatusUpdate t state m =
     \<lparr>su_TaskID = task_ID t, su_ContextID = task_ContextID t,
      su_Status = \<lparr>ts_State = state, ts_Message = m, ts_Timestamp = None\<rparr>,
      su_Final = False, su_Metadata = None\<rparr>"

text \<open>NewManager, given the store that the task pointer points into.\<close>

definition NewManager :: "'s \<Rightarrow> task_ptr \<Rightarrow> task_store \<Rightarrow> 's update_state" where
  "NewManager sv task h = \<lparr>mgr_Task = task, tasks = h, saver = sv\<rparr>"

text \<open>The message that a status carries, as the list that updateStatus appends to History.\<close>

definition superseded :: "TaskStatus \<Rightarrow> Message option list" where
  "superseded s = (case ts_Message s of None \<Rightarrow> [] | Some m \<Rightarrow> [Some m])"

text \<open>Fixtures: a task that is being worked on, and three status updates for a new task.\<close>

definition working_task :: Task where
  "working_task =
     newTestTask\<lparr>task_Status :=
       \<lparr>ts_State = TaskStateWorking, ts_Message = Some (test_message ''hello''),
        ts_Timestamp = None\<rparr>\<rparr>"

definition hello_world_foo :: "TaskStatusUpdateEvent list" where
  "hello_world_foo =
     [newStatusUpdate newTestTask TaskStateWorking (Some (test_message ''hello'')),
      newStatusUpdate newTestTask TaskStateWorking (Some (test_message ''world'')),
      newStatusUpdate newTestTask TaskStateCompleted (Some (test_message ''foo''))]"

section \<open>NewSubmittedTask\<close>

text \<open>
  NewSubmittedTask calls \<open>a2a.NewContextID\<close> (only when the message has no context id) and
  then \<open>a2a.NewTaskID\<close>.  The two generators are not part of the source; they are
  parameters here, each drawing an id from a generator state \<open>'g\<close>.  Reading
  \<open>msg.ContextID\<close> through a nil pointer panics.
\<close>

definition NewSubmittedTask ::
  "('g \<Rightarrow> TaskID \<times> 'g) \<Rightarrow> ('g \<Rightarrow> string \<times> 'g) \<Rightarrow> Message option \<Rightarrow> 'g \<Rightarrow> Task outcome \<times> 'g" where
  "NewSubmittedTask NewTaskID NewContextID msg g =
     (case msg of
        None \<Rightarrow> (Panics, g)
      | Some m \<Rightarrow>
          (let history = [msg];
               (contextID, g1) =
                 (if msg_ContextID m = [] then NewContextID g else (msg_ContextID m, g));
               (taskID, g2) = NewTaskID g1
           in (Returns
                 \<lparr>task_ID = taskID, task_ContextID = contextID,
                  task_Status =
                    \<lparr>ts_State = TaskStateSubmitted, ts_Message = None, ts_Timestamp = None\<rparr>,
                  task_History = history, task_Artifacts = [], task_Metadata = None\<rparr>,
               g2)))"

section \<open>The request handler\<close>

record MessageSendParams =
  msp_Message :: Message

record RequestContext =
  rc_Request :: MessageSendParams
  rc_TaskID :: TaskID

text \<open>
  The handler holds its collaborators as interfaces: the queue manager, the agent
  executor, and the queue that the manager hands out (a value of type \<open>'q\<close>).  Each
  method is a function on the state \<open>'w\<close> of everything the handler does not own.
\<close>

record ('w, 'q) defaultRequestHandler =
  queueManager_GetOrCreate :: "ctx \<Rightarrow> TaskID \<Rightarrow> 'w \<Rightarrow> (error + 'q) outcome \<times> 'w"
  executor_Execute :: "ctx \<Rightarrow> RequestContext \<Rightarrow> 'q \<Rightarrow> 'w \<Rightarrow> error option outcome \<times> 'w"
  queue_Read :: "'q \<Rightarrow> ctx \<Rightarrow> 'w \<Rightarrow> (error + Event) outcome \<times> 'w"

definition OnSendMessage ::
  "('w, 'q) defaultRequestHandler \<Rightarrow> ctx \<Rightarrow> MessageSendParams \<Rightarrow> 'w
     \<Rightarrow> (error + Event) outcome \<times> 'w" where
  "OnSendMessage h c message w =
     (let taskID = msg_TaskID (msp_Message message)
      in if taskID = [] then (Returns (Inl ErrMissingTaskID), w)
         else
           (case queueManager_GetOrCreate h c taskID w of
              (Returns (Inl err), w1) \<Rightarrow> (Returns (Inl (ErrFailedToRetrieveQueue err)), w1)
            | (Returns (Inr queue), w1) \<Rightarrow>
                (case executor_Execute h c \<lparr>rc_Request = message, rc_TaskID = taskID\<rparr> queue w1 of
                   (Returns (Some err), w2) \<Rightarrow> (Returns (Inl err), w2)
                 | (Returns None, w2) \<Rightarrow>
                     (case queue_Read h queue c w2 of
                        (Returns (Inl err), w3) \<Rightarrow> (Returns (Inl (ErrFailedToReadEvent err)), w3)
                      | (Returns (Inr event), w3) \<Rightarrow>
                          if \<not> isSendMessageResult event
                          then (Returns (Inl (ErrHandlerUnexpectedEventType (type_name event))), w3)
                          else (Returns (Inr event), w3)
                      | (Blocks, w3) \<Rightarrow> (Blocks, w3)
                      | (Panics, w3) \<Rightarrow> (Panics, w3))
                 | (Blocks, w2) \<Rightarrow> (Blocks, w2)
                 | (Panics, w2) \<Rightarrow> (Panics, w2))
            | (Blocks, w1) \<Rightarrow> (Blocks, w1)
            | (Panics, w1) \<Rightarrow> (Panics, w1)))"

text \<open>A Read through a queue reference \<open>a\<close> of the in-memory manager.\<close>

definition Read_from ::
  "nat \<Rightarrow> nat \<Rightarrow> ctx \<Rightarrow> manager_state \<Rightarrow> (error + Event) outcome \<times> manager_state" where
  "Read_from a p c m =
     (case queue_store m a of
        None \<Rightarrow> (Panics, m)
      | Some q \<Rightarrow>
          (case Read p c q of
             (r, q') \<Rightarrow> (r, m\<lparr>queue_store := (queue_store m)(a \<mapsto> q')\<rparr>)))"

text \<open>
  A handler as NewHandler wires it, over the in-memory queue manager, with an executor
  that writes a status update and then a message to the queue it is given.
\<close>

definition working_update :: TaskStatusUpdateEvent where
  "working_update =
     \<lparr>su_TaskID = ''test-task'', su_ContextID = [],
      su_Status = \<lparr>ts_State = TaskStateWorking, ts_Message = None, ts_Timestamp = None\<rparr>,
      su_Final = False, su_Metadata = None\<rparr>"

definition update_then_message_handler :: "(manager_state, nat) defaultRequestHandler" where
  "update_then_message_handler =
     \<lparr>queueManager_GetOrCreate = GetOrCreate,
      executor_Execute =
        (\<lambda>c rc q m.
           case Write_to q 0 0 c (EvStatusUpdate working_update) m of
             (Returns None, m1) \<Rightarrow>
               Write_to q 0 0 c (EvMessage (msp_Message (rc_Request rc))) m1
           | r \<Rightarrow> r),
      queue_Read = (\<lambda>q. Read_from q 0)\<rparr>"

definition test_request :: MessageSendParams where
  "test_request = \<lparr>msp_Message = (test_message ''test-message'')\<lparr>msg_TaskID := ''test-task''\<rparr>\<rparr>"

section \<open>The metadata validator\<close>

text \<open>
  Metadata as the validator sees it.  The store lists, for each address, the object
  that starts there: the cells of an array from that address on, or the entries of a
  map in the order in which \<open>range\<close> visits them.  A slice of type \<open>[]any\<close> is the
  address of its first element, which is what \<open>%p\<close> prints for it, and its length: its
  elements are the first that many cells at the address.  So two slices can have the same
  address and differ in length, as \<open>arr\<close> and \<open>arr[:1]\<close> do.  A map is the address of the
  map.  An address without an object is a nil slice or map, over which \<open>range\<close> does
  nothing.
\<close>

datatype object = SliceObj "any list" | MapObj "(string \<times> any) list"

type_synonym any_store = "(nat \<times> object) list"

fun elems :: "object \<Rightarrow> any list" where
  "elems (SliceObj xs) = xs"
| "elems (MapObj kvs) = map snd kvs"

text \<open>
  The recursion ends because every nested call has one more address of the store in
  \<open>processing\<close>: the number of the store's addresses outside \<open>processing\<close> decreases.
\<close>

lemma unprocessed_decreases:
  assumes "map_of h key = Some obj" "key \<notin> processing"
  shows "card (fst ` set h - insert key processing) < card (fst ` set h - processing)"
proof -
  from assms(1) have "key \<in> fst ` set h" by (auto dest: map_of_SomeD intro: rev_image_eqI)
  with assms(2) have "fst ` set h - insert key processing \<subset> fst ` set h - processing"
    by auto
  then show ?thesis by (intro psubset_card_mono) auto
qed

text \<open>
  validateMetaRecursive, with the two \<open>range\<close> loops as validateRange.  The set
  \<open>processing\<close> holds the keys of the map of the source; the key of a slice or a map is
  its address alone, whatever the length of the slice.  Every call that inserts its key
  deletes it again when it returns (the deferred delete), so a caller finds the map after
  a call as it was before: the callee gets the extended set and the caller keeps its
  own.  A key that is no address (what \<open>%p\<close> prints for a struct or an unsigned integer)
  is never among the keys being processed.
\<close>

function validateMetaRecursive :: "any_store \<Rightarrow> any \<Rightarrow> nat set \<Rightarrow> error option"
  and validateRange :: "any_store \<Rightarrow> any list \<Rightarrow> nat set \<Rightarrow> error option" where
  "validateMetaRecursive h ANil processing = None"
| "validateMetaRecursive h (ABool v) processing = None"
| "validateMetaRecursive h (AInt v) processing = None"
| "validateMetaRecursive h (AInt8 v) processing = None"
| "validateMetaRecursive h (AInt16 v) processing = None"
| "validateMetaRecursive h (AInt32 v) processing = None"
| "validateMetaRecursive h (AInt64 v) processing = None"
| "validateMetaRecursive h (AFloat32 v) processing = None"
| "validateMetaRecursive h (AFloat64 v) processing = None"
| "validateMetaRecursive h (AString v) processing = None"
| "validateMetaRecursive h (ASliceAny key n) processing =
     (if key \<in> processing then Some ErrCircularReference
      else case map_of h key of
             None \<Rightarrow> None
           | Some arr \<Rightarrow> validateRange h (take n (elems arr)) (insert key processing))"
| "validateMetaRecursive h (AMapStringAny key) processing =
     (if key \<in> processing then Some ErrCircularReference
      else case map_of h key of
             None \<Rightarrow> None
           | Some m \<Rightarrow> validateRange h (elems m) (insert key processing))"
| "validateMetaRecursive h (AOther t p) processing =
     (case p of
        None \<Rightarrow> Some (ErrNotPermitted t)
      | Some key \<Rightarrow>
          if key \<in> processing then Some ErrCircularReference else Some (ErrNotPermitted t))"
| "validateRange h [] processing = None"
| "validateRange h (elem # rest) processing =
     (case validateMetaRecursive h elem processing of
        Some err \<Rightarrow> Some err
      | None \<Rightarrow> validateRange h rest processing)"
  by pat_completeness auto

termination
  by (relation "inv_image (less_than <*lex*> less_than)
        (\<lambda>x. case x of
               Inl (h, v, processing) \<Rightarrow> (card (fst ` set h - processing), 0)
             | Inr (h, xs, processing) \<Rightarrow> (card (fst ` set h - processing), Suc (length xs)))")
     (auto simp: unprocessed_decreases)

definition validateMeta :: "any_store \<Rightarrow> nat \<Rightarrow> error option" where
  "validateMeta h meta = validateMetaRecursive h (AMapStringAny meta) {}"








text \<open>
  Two more stores of the tests: a map nested in a map that holds the outer one, and a
  map with a value of a struct type.
\<close>

definition deep_circular_store :: any_store where
  "deep_circular_store =
     [(3, MapObj [(''d'', AMapStringAny 2)]),
      (2, MapObj [(''nested'', AMapStringAny 1)]),
      (1, MapObj [(''self'', AMapStringAny 2)])]"

definition forbidden_store :: any_store where
  "forbidden_store = [(1, MapObj [(''hello'', AOther ''taskstore.forbiddenType'' None)])]"



section \<open>Properties of the in-memory event queue\<close>

lemma quiescent_New: "quiescent (NewInMemoryQueue sz)"
  by (simp add: quiescent_def NewInMemoryQueue_def newSemaphore_def)

lemma select_two_cases:
  "select p [(c1, a), (c2, b)] =
     (if c1 \<and> c2 then Some (if even p then a else b)
      else if c1 then Some a else if c2 then Some b else None)"
proof -
  have "p mod 2 = 0 \<or> p mod 2 = 1" by arith
  then show ?thesis
    by (auto simp: select_def Let_def numeral_2_eq_2 even_iff_mod_2_eq_zero)
qed

lemma select_middle_off:
  "select p [(c1, a), (False, b), (c3, c)] = select p [(c1, a), (c3, c)]"
  by (simp add: select_def)

lemma acquireWithContext_free:
  assumes "tokens s = 0" "count s = 1"
  shows "acquireWithContext p c s =
           (if ctx_Done c \<and> odd p then Some (ctx_Err c, s) else Some (None, s\<lparr>tokens := Suc 0\<rparr>))"
  using assms by (simp add: acquireWithContext_def select_two_cases)

lemma release_held:
  "tokens (semaphore q) = 0 \<Longrightarrow>
     q\<lparr>semaphore := release ((semaphore q)\<lparr>tokens := Suc 0\<rparr>)\<rparr> = q"
  by (simp add: release_def)

lemma Write_closed:
  assumes "quiescent q" "closed q"
  shows "Write p1 p2 c e q =
           (if ctx_Done c \<and> odd p1 then (Returns (ctx_Err c), q)
            else (Returns (Some ErrQueueClosed), q))"
  using assms
  by (auto simp: Write_def quiescent_def acquireWithContext_free release_held ctx_Done_def)

lemma Write_open:
  assumes "quiescent q" "\<not> closed q"
  shows "Write p1 p2 c e q =
           (if ctx_Done c \<and> odd p1 then (Returns (ctx_Err c), q)
            else if length (events q) < events_cap q \<and> (ctx_Done c \<longrightarrow> even p2)
              then (Returns None, q\<lparr>events := events q @ [e]\<rparr>)
            else if ctx_Done c then (Returns (ctx_Err c), q)
            else (Blocks, q\<lparr>semaphore := (semaphore q)\<lparr>tokens := Suc 0\<rparr>\<rparr>))"
  using assms
  by (auto simp: Write_def quiescent_def acquireWithContext_free release_held ctx_Done_def
       select_middle_off select_two_cases)

lemma Write_returns_nil:
  assumes "quiescent q" "Write p1 p2 c e q = (Returns None, q')"
  shows "\<not> closed q \<and> length (events q) < events_cap q \<and> q' = q\<lparr>events := events q @ [e]\<rparr>"
proof (cases "closed q")
  case True
  with assms show ?thesis by (auto simp: Write_closed ctx_Done_def split: if_splits)
next
  case False
  with assms show ?thesis by (auto simp: Write_open ctx_Done_def split: if_splits)
qed

lemma Read_live:
  assumes "\<not> ctx_Done c"
  shows "Read p c q =
     (case events q of
        [] \<Rightarrow> if events_closed q then (Returns (Inl ErrQueueClosed), q) else (Blocks, q)
      | ev # rest \<Rightarrow> (Returns (Inr ev), q\<lparr>events := rest\<rparr>))"
  using assms
  by (auto simp: Read_def select_two_cases split: list.splits)

lemma Close_open:
  assumes "quiescent q" "\<not> closed q"
  shows "Close q = (Returns None, q\<lparr>closed := True, closeChan_closed := True, events_closed := True\<rparr>)"
  using assms
  by (simp add: Close_def quiescent_def Let_def acquire_def release_def)

lemma Close_closed:
  assumes "\<not> closeMu q" "closed q"
  shows "Close q = (Returns None, q)"
  using assms by (simp add: Close_def)

lemma quiescent_Close:
  assumes "quiescent q"
  shows "fst (Close q) = Returns None \<and> quiescent (snd (Close q)) \<and> closed (snd (Close q))
         \<and> events (snd (Close q)) = events q"
proof (cases "closed q")
  case True
  with assms show ?thesis by (simp add: Close_closed quiescent_def)
next
  case False
  with assms show ?thesis by (simp add: Close_open) (simp add: quiescent_def)
qed

lemma Close_rev2_eq:
  assumes "quiescent q"
  shows "Close_rev2 q = Close q"
  using assms
  by (simp add: Close_rev2_def Close_def quiescent_def Let_def acquire_def release_def)

lemma Closes_closed:
  assumes "\<not> closeMu q" "closed q"
  shows "Closes n q = (replicate n (Returns None), q)"
  using assms by (induction n) (simp_all add: Close_closed)

lemma Writes_events:
  assumes "quiescent q" "Writes ws q = Some q1"
  shows "quiescent q1 \<and> events q1 = events q @ written ws"
  using assms
proof (induction ws arbitrary: q)
  case Nil
  then show ?case by (simp add: written_def)
next
  case (Cons w ws)
  obtain p1 p2 c e where w: "w = (p1, p2, c, e)" by (cases w) auto
  from Cons.prems(2) w obtain q' where
    wr: "Write p1 p2 c e q = (Returns None, q')" and rest: "Writes ws q' = Some q1"
    by (auto split: prod.splits outcome.splits option.splits)
  from Write_returns_nil [OF Cons.prems(1) wr]
  have q': "q' = q\<lparr>events := events q @ [e]\<rparr>" "length (events q) < events_cap q" by simp_all
  with Cons.prems(1) have "quiescent q'" by (simp add: quiescent_def)
  from Cons.IH [OF this rest] q' w show ?case by (simp add: written_def)
qed

lemma Reads_live:
  assumes "\<forall>(p, c) \<in> set rs. \<not> ctx_Done c" "length rs \<le> length (events q)"
  shows "Reads rs q =
           (map (\<lambda>e. Returns (Inr e)) (take (length rs) (events q)),
            q\<lparr>events := drop (length rs) (events q)\<rparr>)"
  using assms
proof (induction rs arbitrary: q)
  case Nil
  then show ?case by simp
next
  case (Cons r rs)
  obtain p c where r: "r = (p, c)" by (cases r)
  with Cons.prems have live: "\<not> ctx_Done c" by simp
  from Cons.prems(2) obtain ev rest where evs: "events q = ev # rest" by (cases "events q") auto
  have rd: "Read p c q = (Returns (Inr ev), q\<lparr>events := rest\<rparr>)"
    using live evs by (simp add: Read_live)
  have "Reads rs (q\<lparr>events := rest\<rparr>) =
          (map (\<lambda>e. Returns (Inr e)) (take (length rs) rest),
           q\<lparr>events := drop (length rs) rest\<rparr>)"
    using Cons.IH [of "q\<lparr>events := rest\<rparr>"] Cons.prems evs by simp
  with rd r evs show ?case by simp
qed

lemma quiescent_Write:
  assumes "quiescent q" "Write p1 p2 c e q = (Returns r, q')"
  shows "quiescent q' \<and> (closed q \<longrightarrow> closed q')"
proof (cases "closed q")
  case True
  with assms show ?thesis by (auto simp: Write_closed split: if_splits)
next
  case False
  with assms show ?thesis by (auto simp: Write_open quiescent_def split: if_splits)
qed

lemma quiescent_Read:
  assumes "quiescent q" "Read p c q = (Returns x, q')"
  shows "quiescent q' \<and> (closed q \<longrightarrow> closed q')"
  using assms
  by (auto simp: Read_def select_two_cases quiescent_def split: list.splits if_splits)

lemma reached_quiescent: "reached q \<Longrightarrow> quiescent q"
proof (induction rule: reached.induct)
  case (after_New sz)
  show ?case by (rule quiescent_New)
next
  case (after_Write q p1 p2 c e r q')
  then show ?case by (simp add: quiescent_Write)
next
  case (after_Read q p c x q')
  then show ?case by (simp add: quiescent_Read)
next
  case (after_Close q r q')
  with quiescent_Close [of q] show ?case by simp
qed

text \<open>
  The blocking cases of the queue tests: a Write to a full queue returns the error of a
  context that is done and waits with a live one; a Read from an empty open queue waits.
\<close>

lemma Write_full_done_context:
  assumes "quiescent q" "\<not> closed q" "length (events q) = events_cap q"
  shows "Write p1 p2 (Ctx (Some err)) e q = (Returns (Some err), q)"
  using assms by (simp add: Write_open ctx_Done_def)

lemma Write_full_live_context:
  assumes "quiescent q" "\<not> closed q" "length (events q) = events_cap q"
  shows "fst (Write p1 p2 (Ctx None) e q) = Blocks"
  using assms by (simp add: Write_open ctx_Done_def)

lemma Read_empty_open_live:
  assumes "quiescent q" "\<not> closed q" "events q = []"
  shows "Read p (Ctx None) q = (Blocks, q)"
  using assms by (simp add: Read_live ctx_Done_def quiescent_def)

lemma example_writes_succeed:
  "Writes example_writes (NewInMemoryQueue 3) =
     Some ((NewInMemoryQueue 3)\<lparr>events := written example_writes\<rparr>)"
  by (simp add: example_writes_def written_def Write_def acquireWithContext_def select_def
        NewInMemoryQueue_def newSemaphore_def release_def ctx_Done_def)

text \<open>
  Claim C2, as the code has it.  Take a queue between calls with nothing buffered (a new
  queue of any capacity is one), N Write calls that all return nil, then Close.  Close
  returns nil; N Read calls whose contexts are not done return exactly the N written
  events in the order of writing; and one more Read with a live context fails with
  ErrQueueClosed.  The contexts of the reads have to be live: see the counterexample.
\<close>

theorem Write_Close_Read:
  assumes "quiescent q" "events q = []" "Writes ws q = Some q1"
    and "length rs = length ws" "\<forall>(p, c) \<in> set rs. \<not> ctx_Done c" "\<not> ctx_Done c'"
  shows "fst (Close q1) = Returns None \<and>
         fst (Reads rs (snd (Close q1))) = map (\<lambda>e. Returns (Inr e)) (written ws) \<and>
         fst (Read p' c' (snd (Reads rs (snd (Close q1))))) = Returns (Inl ErrQueueClosed)"
proof -
  from Writes_events [OF assms(1,3)] assms(2)
  have q1: "quiescent q1" "events q1 = written ws" by simp_all
  let ?q2 = "snd (Close q1)"
  from quiescent_Close [OF q1(1)] q1(2)
  have q2: "fst (Close q1) = Returns None" "quiescent ?q2" "closed ?q2" "events ?q2 = written ws"
    by simp_all
  have len: "length rs = length (events ?q2)" using assms(4) q2(4) by (simp add: written_def)
  from Reads_live [OF assms(5), of ?q2] len
  have rd: "Reads rs ?q2 = (map (\<lambda>e. Returns (Inr e)) (events ?q2), ?q2\<lparr>events := []\<rparr>)"
    by simp
  from q2(2,3) have "events_closed ?q2" by (simp add: quiescent_def)
  then have "fst (Read p' c' (?q2\<lparr>events := []\<rparr>)) = Returns (Inl ErrQueueClosed)"
    using assms(6) by (simp add: Read_live)
  with rd q2 show ?thesis by simp
qed

theorem Write_Close_Read_witness:
  "fst (Reads [(0, Ctx None), (1, Ctx None)]
          (snd (Close ((NewInMemoryQueue 3)\<lparr>events := written example_writes\<rparr>)))) =
     [Returns (Inr (EvMessage (test_message ''test-event''))),
      Returns (Inr (EvMessage (test_message ''test-event2'')))] \<and>
   fst (Read 0 (Ctx None)
          (snd (Reads [(0, Ctx None), (1, Ctx None)]
             (snd (Close ((NewInMemoryQueue 3)\<lparr>events := written example_writes\<rparr>)))))) =
     Returns (Inl ErrQueueClosed)"
proof -
  have live: "\<forall>(p, c) \<in> set [(0::nat, Ctx None), (1, Ctx None)]. \<not> ctx_Done c"
    by (simp add: ctx_Done_def)
  have empty: "events (NewInMemoryQueue 3) = []" by (simp add: NewInMemoryQueue_def)
  have len: "length [(0::nat, Ctx None), (1, Ctx None)] = length example_writes"
    by (simp add: example_writes_def)
  have c': "\<not> ctx_Done (Ctx None)" by (simp add: ctx_Done_def)
  from Write_Close_Read [OF quiescent_New empty example_writes_succeed len live c', of 0]
  show ?thesis by (simp add: written_def example_writes_def)
qed

text \<open>
  Claim C2 as stated fails when a Read is given a context that is already done: the
  select of Read then has two ready cases and may take \<open>ctx.Done()\<close>.  Here one event is
  written to a new queue of capacity 3, the queue is closed, and the next Read, with a
  canceled context, returns the context's error and not the event.
\<close>

theorem Read_done_context_counterexample:
  "Writes [(0, 0, Ctx None, EvMessage (test_message ''test-event''))] (NewInMemoryQueue 3) =
     Some ((NewInMemoryQueue 3)\<lparr>events := [EvMessage (test_message ''test-event'')]\<rparr>) \<and>
   fst (Read 1 (Ctx (Some ContextCanceled))
          (snd (Close ((NewInMemoryQueue 3)\<lparr>events := [EvMessage (test_message ''test-event'')]\<rparr>)))) =
     Returns (Inl ContextCanceled)"
  by (simp add: Write_def acquireWithContext_def select_def Read_def Close_def acquire_def
        NewInMemoryQueue_def newSemaphore_def release_def ctx_Done_def)

text \<open>
  Claim C5, as the code has it.  On a queue between calls whose \<open>closed\<close> mark is set
  (Close sets it before it returns and nothing resets it), every Write returns an
  error without waiting and leaves the whole queue, its buffer included, as it was.
  The error is ErrQueueClosed when the context of the Write is live; with a context that
  is already done it is ErrQueueClosed or the context's error.
\<close>

theorem Write_after_Close:
  assumes "quiescent q" "closed q"
  shows "snd (Write p1 p2 c e q) = q \<and>
         (fst (Write p1 p2 c e q) = Returns (Some ErrQueueClosed) \<or>
          ctx_Done c \<and> fst (Write p1 p2 c e q) = Returns (ctx_Err c)) \<and>
         (\<not> ctx_Done c \<longrightarrow> fst (Write p1 p2 c e q) = Returns (Some ErrQueueClosed))"
  using assms by (simp add: Write_closed)

theorem Write_after_Close_witness:
  "closed (snd (Close (NewInMemoryQueue 3))) \<and>
   Write 0 0 (Ctx None) (EvMessage (test_message ''test'')) (snd (Close (NewInMemoryQueue 3))) =
     (Returns (Some ErrQueueClosed), snd (Close (NewInMemoryQueue 3)))"
proof -
  have q: "quiescent (snd (Close (NewInMemoryQueue 3)))" "closed (snd (Close (NewInMemoryQueue 3)))"
    using quiescent_Close [OF quiescent_New] by simp_all
  from Write_after_Close [OF q, of 0 0 "Ctx None" "EvMessage (test_message ''test'')"] q(2)
  show ?thesis by (simp add: ctx_Done_def prod_eq_iff)
qed

text \<open>
  Claim C5 as stated fails for a Write whose context is already done: the select of
  acquireWithContext may take \<open>ctx.Done()\<close>, and the Write on the closed queue then
  returns the context's error, not ErrQueueClosed.
\<close>

theorem Write_after_Close_done_context_counterexample:
  "fst (Write 1 0 (Ctx (Some ContextCanceled)) (EvMessage (test_message ''test''))
          (snd (Close (NewInMemoryQueue 3)))) = Returns (Some ContextCanceled)"
  by (simp add: Write_def acquireWithContext_def select_def Close_def acquire_def
        NewInMemoryQueue_def newSemaphore_def release_def ctx_Done_def)

text \<open>
  Claim C6.  On a queue between calls, any number of Close calls in a row all return
  nil, none waits or panics, and the queue after them is the queue after the first,
  which is closed.  More generally, a Close on any queue \<open>q'\<close> that is marked closed and
  whose mutex is free returns nil and leaves \<open>q'\<close> as it is, whatever else is going on
  in \<open>q'\<close> (its buffer, its semaphore).
\<close>

theorem Close_idempotent:
  assumes "quiescent q"
  shows "Closes (Suc n) q = (replicate (Suc n) (Returns None), snd (Close q)) \<and>
         closed (snd (Close q)) \<and> events_closed (snd (Close q)) \<and>
         (closed q' \<and> \<not> closeMu q' \<longrightarrow> Close q' = (Returns None, q'))"
proof -
  from assms have c: "fst (Close q) = Returns None" "quiescent (snd (Close q))" "closed (snd (Close q))"
    by (simp_all add: quiescent_Close)
  then have "\<not> closeMu (snd (Close q))" by (simp add: quiescent_def)
  with c have "Closes n (snd (Close q)) = (replicate n (Returns None), snd (Close q))"
    by (simp add: Closes_closed)
  moreover from c have "events_closed (snd (Close q))" by (simp add: quiescent_def)
  ultimately show ?thesis using c by (cases "Close q") (simp add: Close_closed)
qed

theorem Close_idempotent_witness:
  "quiescent (NewInMemoryQueue 3) \<and>
   Closes 3 (NewInMemoryQueue 3) =
     ([Returns None, Returns None, Returns None], snd (Close (NewInMemoryQueue 3))) \<and>
   closed (snd (Close (NewInMemoryQueue 3))) \<and>
   \<not> closeMu (snd (Close (NewInMemoryQueue 3))) \<and>
   Close (snd (Close (NewInMemoryQueue 3))) = (Returns None, snd (Close (NewInMemoryQueue 3)))"
proof -
  have after: "closed (snd (Close (NewInMemoryQueue 3)))" "\<not> closeMu (snd (Close (NewInMemoryQueue 3)))"
    using quiescent_Close [OF quiescent_New, of 3] by (simp_all add: quiescent_def)
  from Close_idempotent [OF quiescent_New, of 2 3 "snd (Close (NewInMemoryQueue 3))"] after
  show ?thesis by (simp add: quiescent_New numeral_3_eq_3)
qed

section \<open>Properties of the queue manager\<close>

lemma one_queue_manager_eq:
  "one_queue_manager =
     \<lparr>mgr_mu = False, mgr_queues = [''t1'' \<mapsto> 0],
      queue_store = [0 \<mapsto> NewInMemoryQueue defaultMaxQueueSize], next_queue = Suc 0\<rparr>"
  by (simp add: one_queue_manager_def GetOrCreate_def NewInMemoryManager_def)

text \<open>
  Claim C7, as the code has it.  In a manager between calls: Destroy on a task id
  \<open>absent\<close> without a registered queue returns the does-not-exist error and leaves the
  manager as it was.  Destroy on a task id whose registered queue (at address \<open>a\<close>) is
  between calls returns nil, replaces that queue by its closed state and removes the
  task id from the registry; every later Write through \<open>a\<close> fails and changes nothing,
  with ErrQueueClosed when its context is live and with ErrQueueClosed or the context's
  error when its context is already done.
\<close>

theorem Destroy_spec:
  "(\<not> mgr_mu m \<and> mgr_queues m absent = None \<longrightarrow>
      Destroy c absent m = (Returns (Some (ErrQueueDoesNotExist absent)), m)) \<and>
   (\<not> mgr_mu m \<and> mgr_queues m taskId = Some a \<and> queue_store m a = Some q \<and> quiescent q \<longrightarrow>
      Destroy c taskId m =
        (Returns None,
         m\<lparr>queue_store := (queue_store m)(a \<mapsto> snd (Close q)),
           mgr_queues := (mgr_queues m)(taskId := None)\<rparr>) \<and>
      closed (snd (Close q)) \<and>
      snd (Write_to a p1 p2 c' e (snd (Destroy c taskId m))) = snd (Destroy c taskId m) \<and>
      (fst (Write_to a p1 p2 c' e (snd (Destroy c taskId m))) = Returns (Some ErrQueueClosed) \<or>
       ctx_Done c' \<and> fst (Write_to a p1 p2 c' e (snd (Destroy c taskId m))) = Returns (ctx_Err c')) \<and>
      (\<not> ctx_Done c' \<longrightarrow>
         fst (Write_to a p1 p2 c' e (snd (Destroy c taskId m))) = Returns (Some ErrQueueClosed)))"
proof (intro conjI impI)
  assume "\<not> mgr_mu m \<and> mgr_queues m absent = None"
  then show "Destroy c absent m = (Returns (Some (ErrQueueDoesNotExist absent)), m)"
    by (simp add: Destroy_def)
next
  assume h: "\<not> mgr_mu m \<and> mgr_queues m taskId = Some a \<and> queue_store m a = Some q \<and> quiescent q"
  let ?q' = "snd (Close q)"
  let ?m' = "m\<lparr>queue_store := (queue_store m)(a \<mapsto> ?q'), mgr_queues := (mgr_queues m)(taskId := None)\<rparr>"
  from h have cl: "fst (Close q) = Returns None" "quiescent ?q'" "closed ?q'"
    by (simp_all add: quiescent_Close)
  from h cl(1) show d: "Destroy c taskId m = (Returns None, ?m')"
    by (cases "Close q") (simp add: Destroy_def)
  show "closed ?q'" by (rule cl(3))
  have w: "Write_to a p1 p2 c' e ?m' = (fst (Write p1 p2 c' e ?q'), ?m')"
    using Write_closed [OF cl(2,3), of p1 p2 c' e] by (simp add: Write_to_def)
  from w d show "snd (Write_to a p1 p2 c' e (snd (Destroy c taskId m))) = snd (Destroy c taskId m)"
    by simp
  from w d Write_closed [OF cl(2,3), of p1 p2 c' e]
  show "fst (Write_to a p1 p2 c' e (snd (Destroy c taskId m))) = Returns (Some ErrQueueClosed) \<or>
       ctx_Done c' \<and> fst (Write_to a p1 p2 c' e (snd (Destroy c taskId m))) = Returns (ctx_Err c')"
    by simp
  assume "\<not> ctx_Done c'"
  with w d Write_closed [OF cl(2,3), of p1 p2 c' e]
  show "fst (Write_to a p1 p2 c' e (snd (Destroy c taskId m))) = Returns (Some ErrQueueClosed)"
    by simp
qed

theorem Destroy_spec_witness:
  "Destroy (Ctx None) ''t2'' one_queue_manager =
     (Returns (Some (ErrQueueDoesNotExist ''t2'')), one_queue_manager) \<and>
   fst (Destroy (Ctx None) ''t1'' one_queue_manager) = Returns None \<and>
   mgr_queues (snd (Destroy (Ctx None) ''t1'' one_queue_manager)) ''t1'' = None \<and>
   fst (Write_to 0 0 0 (Ctx None) (EvMessage (test_message ''test''))
          (snd (Destroy (Ctx None) ''t1'' one_queue_manager))) = Returns (Some ErrQueueClosed)"
proof -
  have absent: "\<not> mgr_mu one_queue_manager \<and> mgr_queues one_queue_manager ''t2'' = None"
    by (simp add: one_queue_manager_eq)
  have registered:
    "\<not> mgr_mu one_queue_manager \<and> mgr_queues one_queue_manager ''t1'' = Some 0 \<and>
     queue_store one_queue_manager 0 = Some (NewInMemoryQueue defaultMaxQueueSize) \<and>
     quiescent (NewInMemoryQueue defaultMaxQueueSize)"
    by (simp add: one_queue_manager_eq quiescent_New)
  have live: "\<not> ctx_Done (Ctx None)" by (simp add: ctx_Done_def)
  from Destroy_spec [of one_queue_manager "''t2''" "Ctx None" "''t1''" 0
      "NewInMemoryQueue defaultMaxQueueSize" 0 0 "Ctx None" "EvMessage (test_message ''test'')"]
    absent registered live
  show ?thesis by auto
qed

text \<open>
  Claim C7 as stated fails for a later Write whose context is already done: after Destroy
  has closed the queue of task \<open>t1\<close>, a Write to it with a canceled context may return
  the context's error, not ErrQueueClosed.
\<close>

theorem Destroy_then_Write_done_context_counterexample:
  "fst (Destroy (Ctx None) ''t1'' one_queue_manager) = Returns None \<and>
   fst (Write_to 0 1 0 (Ctx (Some ContextCanceled)) (EvMessage (test_message ''test''))
          (snd (Destroy (Ctx None) ''t1'' one_queue_manager))) = Returns (Some ContextCanceled)"
  by (simp add: one_queue_manager_eq Destroy_def Write_to_def Close_def acquire_def release_def
        NewInMemoryQueue_def newSemaphore_def Write_def acquireWithContext_def select_def
        ctx_Done_def)

section \<open>Properties of the task update manager\<close>

lemma validate_mismatch:
  "tid \<noteq> task_ID t \<or> cid \<noteq> task_ContextID t \<Longrightarrow>
   validate t tid cid =
     Some (if task_ID t \<noteq> tid then ErrTaskIDsDontMatch (task_ID t) tid
           else ErrContextIDsDontMatch (task_ContextID t) cid)"
  by (auto simp: validate_def)

lemma Process_Task_saved:
  assumes "mgr_Task st = Some a" "tasks st a = Some t" "tasks st b = Some v"
    and "task_ID v = task_ID t" "task_ContextID v = task_ContextID t"
  shows "Process save c (EvTask (Some b)) st =
           (case save (saver st) c b v of
              (Some err, sv) \<Rightarrow> (Returns (Some err), st\<lparr>saver := sv\<rparr>)
            | (None, sv) \<Rightarrow> (Returns None, st\<lparr>saver := sv, mgr_Task := Some b\<rparr>))"
  using assms by (simp add: Process_def deref_def validate_def)

lemma Process_Message: "mgr_Task st = Some a \<Longrightarrow> Process save c (EvMessage m) st = (Returns None, st)"
  by (simp add: Process_def)

lemma Process_Task_not_set: "mgr_Task st = None \<Longrightarrow> Process save c e st = (Returns (Some ErrTaskNotSet), st)"
  by (simp add: Process_def)

lemma Process_artifact_not_implemented:
  assumes "mgr_Task st = Some a" "tasks st a = Some t"
    and "au_TaskID v = task_ID t" "au_ContextID v = task_ContextID t"
  shows "Process save c (EvArtifactUpdate v) st = (Returns (Some ErrNotImplemented), st)"
  using assms by (simp add: Process_def validate_def updateArtifact_def)

text \<open>
  Claim C4.  The manager manages the task \<open>t\<close> (at address \<open>a\<close>).  For an event that
  carries ids (a Task snapshot, a status update, an artifact update) of which the task
  id or the context id differs from that of \<open>t\<close>, whatever the strings are, Process
  returns the mismatch error of \<open>validate\<close> and the whole state is as before: the Manager's
  pointer, every task of the store with all its fields, and the state of the Saver,
  whatever Saver it is, so Save has not been called.
\<close>

theorem Process_identity_mismatch:
  assumes "mgr_Task st = Some a" "tasks st a = Some t"
    and "event_ids (tasks st) event = Some (tid, cid)"
    and "tid \<noteq> task_ID t \<or> cid \<noteq> task_ContextID t"
  shows "Process save c event st =
           (Returns (Some (if task_ID t \<noteq> tid then ErrTaskIDsDontMatch (task_ID t) tid
                           else ErrContextIDsDontMatch (task_ContextID t) cid)), st)"
proof (cases event)
  case EvNil
  with assms(3) show ?thesis by simp
next
  case (EvMessage v)
  with assms(3) show ?thesis by simp
next
  case (EvTask p)
  with assms(3) obtain b v where p: "p = Some b" "tasks st b = Some v"
    "tid = task_ID v" "cid = task_ContextID v"
    by (auto simp: deref_def split: option.splits)
  with EvTask assms(1,2) validate_mismatch [OF assms(4)] show ?thesis
    by (simp add: Process_def deref_def)
next
  case (EvStatusUpdate v)
  with assms(1,2,3) validate_mismatch [OF assms(4)] show ?thesis
    by (auto simp: Process_def)
next
  case (EvArtifactUpdate v)
  with assms(1,2,3) validate_mismatch [OF assms(4)] show ?thesis
    by (auto simp: Process_def)
qed

theorem Process_identity_mismatch_witness:
  "Process recording_saver (Ctx None)
     (EvStatusUpdate ((newStatusUpdate newTestTask TaskStateWorking None)\<lparr>su_ContextID := []\<rparr>))
     (NewManager None (Some 0) [0 \<mapsto> newTestTask]) =
   (Returns (Some (ErrContextIDsDontMatch ''context-1'' [])),
    NewManager None (Some 0) [0 \<mapsto> newTestTask])"
  using Process_identity_mismatch
    [of "NewManager None (Some 0) [0 \<mapsto> newTestTask]" 0 newTestTask
        "EvStatusUpdate ((newStatusUpdate newTestTask TaskStateWorking None)\<lparr>su_ContextID := []\<rparr>)"
        "''task-1''" "[]" recording_saver "Ctx None"]
  by (simp add: NewManager_def newStatusUpdate_def newTestTask_def)

lemma Process_status_update:
  assumes "mgr_Task st = Some a" "tasks st a = Some t"
    and "su_TaskID u = task_ID t" "su_ContextID u = task_ContextID t"
  shows "\<exists>t'. tasks (snd (Process save c (EvStatusUpdate u) st)) a = Some t' \<and>
           mgr_Task (snd (Process save c (EvStatusUpdate u) st)) = Some a \<and>
           task_ID t' = task_ID t \<and> task_ContextID t' = task_ContextID t \<and>
           task_History t' = task_History t @ superseded (task_Status t) \<and>
           task_Status t' = su_Status u"
  using assms
  by (auto simp: Process_def validate_def updateStatus_def Let_def superseded_def
        split: option.splits prod.splits)

lemma ProcessAll_status_updates:
  assumes "mgr_Task st = Some a" "tasks st a = Some t" "us \<noteq> []"
    and "\<forall>u \<in> set us. su_TaskID u = task_ID t \<and> su_ContextID u = task_ContextID t \<and>
           ts_Message (su_Status u) \<noteq> None"
  shows "\<exists>t'. tasks (ProcessAll save c (map EvStatusUpdate us) st) a = Some t' \<and>
           task_History t' =
             task_History t @ superseded (task_Status t) @
               map (\<lambda>u. ts_Message (su_Status u)) (butlast us) \<and>
           task_Status t' = su_Status (last us)"
  using assms
proof (induction us arbitrary: st t)
  case Nil
  then show ?case by simp
next
  case (Cons u us)
  let ?st1 = "snd (Process save c (EvStatusUpdate u) st)"
  from Cons.prems have ids: "su_TaskID u = task_ID t" "su_ContextID u = task_ContextID t"
    and msg: "ts_Message (su_Status u) \<noteq> None" by simp_all
  from Process_status_update [OF Cons.prems(1,2) ids, of save c]
  obtain t1 where t1: "tasks ?st1 a = Some t1" "mgr_Task ?st1 = Some a"
    "task_ID t1 = task_ID t" "task_ContextID t1 = task_ContextID t"
    "task_History t1 = task_History t @ superseded (task_Status t)"
    "task_Status t1 = su_Status u"
    by blast
  show ?case
  proof (cases "us = []")
    case True
    with t1 show ?thesis by simp
  next
    case False
    have "\<forall>u \<in> set us. su_TaskID u = task_ID t1 \<and> su_ContextID u = task_ContextID t1 \<and>
           ts_Message (su_Status u) \<noteq> None"
      using Cons.prems(4) t1(3,4) by simp
    from Cons.IH [OF t1(2) t1(1) False this]
    obtain t' where t': "tasks (ProcessAll save c (map EvStatusUpdate us) ?st1) a = Some t'"
      "task_History t' = task_History t1 @ superseded (task_Status t1) @
               map (\<lambda>u. ts_Message (su_Status u)) (butlast us)"
      "task_Status t' = su_Status (last us)"
      by blast
    from msg t1(6) have "superseded (task_Status t1) = [ts_Message (su_Status u)]"
      by (auto simp: superseded_def)
    with t' t1(5) False show ?thesis by simp
  qed
qed

text \<open>
  Claim C3.  The manager manages the task \<open>t\<close> (at address \<open>a\<close>), whose History is empty
  and whose Status has no Message.  A non-empty list \<open>us\<close> of status updates is applied
  in order, each with the ids of \<open>t\<close> and with a Message in its Status.  Then the History
  of the managed task is the list of the Messages of all updates but the last, in the
  order of application, and its Status is the Status of the last update.  This holds for
  every Saver, whatever its Save calls return.
\<close>

theorem status_updates_history:
  assumes "mgr_Task st = Some a" "tasks st a = Some t"
    and "task_History t = []" "ts_Message (task_Status t) = None"
    and "us \<noteq> []"
    and "\<forall>u \<in> set us. su_TaskID u = task_ID t \<and> su_ContextID u = task_ContextID t \<and>
           ts_Message (su_Status u) \<noteq> None"
  shows "map_option task_History (tasks (ProcessAll save c (map EvStatusUpdate us) st) a) =
           Some (map (\<lambda>u. ts_Message (su_Status u)) (butlast us)) \<and>
         map_option task_Status (tasks (ProcessAll save c (map EvStatusUpdate us) st) a) =
           Some (su_Status (last us))"
  using ProcessAll_status_updates [OF assms(1,2,5,6), of save c] assms(3,4)
  by (auto simp: superseded_def)

theorem status_updates_history_witness:
  "map_option task_History
     (tasks (ProcessAll recording_saver (Ctx None) (map EvStatusUpdate hello_world_foo)
               (NewManager None (Some 0) [0 \<mapsto> newTestTask])) 0) =
     Some [Some (test_message ''hello''), Some (test_message ''world'')] \<and>
   map_option task_Status
     (tasks (ProcessAll recording_saver (Ctx None) (map EvStatusUpdate hello_world_foo)
               (NewManager None (Some 0) [0 \<mapsto> newTestTask])) 0) =
     Some \<lparr>ts_State = TaskStateCompleted, ts_Message = Some (test_message ''foo''),
           ts_Timestamp = None\<rparr>"
  using status_updates_history
    [of "NewManager None (Some 0) [0 \<mapsto> newTestTask]" 0 newTestTask hello_world_foo
        recording_saver "Ctx None"]
  by (simp add: NewManager_def newStatusUpdate_def newTestTask_def hello_world_foo_def)

text \<open>
  Claim C1 does not hold of the code.  The managed task is being worked on, with the
  Message \<open>hello\<close> in its Status and an empty History; a status update \<open>Completed\<close> with the
  Message \<open>world\<close> and the Metadata \<open>foo = bar\<close> arrives, and Save fails.  Process returns
  the error of Save, and the managed task has the new Status, the new Metadata and the
  old Message in its History all the same: updateStatus writes through the Manager's own
  pointer before it calls Save.
\<close>

theorem updateStatus_failed_save:
  "fst (Process failing_saver (Ctx None)
          (EvStatusUpdate
             ((newStatusUpdate working_task TaskStateCompleted (Some (test_message ''world'')))
                \<lparr>su_Metadata := Some [''foo'' \<mapsto> AString ''bar'']\<rparr>))
          (NewManager None (Some 0) [0 \<mapsto> working_task])) =
     Returns (Some (ErrExternal ''saver failed'')) \<and>
   tasks (snd (Process failing_saver (Ctx None)
          (EvStatusUpdate
             ((newStatusUpdate working_task TaskStateCompleted (Some (test_message ''world'')))
                \<lparr>su_Metadata := Some [''foo'' \<mapsto> AString ''bar'']\<rparr>))
          (NewManager None (Some 0) [0 \<mapsto> working_task]))) 0 =
     Some (working_task
       \<lparr>task_Status := \<lparr>ts_State = TaskStateCompleted, ts_Message = Some (test_message ''world''),
                        ts_Timestamp = None\<rparr>,
        task_History := [Some (test_message ''hello'')],
        task_Metadata := Some [''foo'' \<mapsto> AString ''bar'']\<rparr>)"
  by (simp add: Process_def validate_def updateStatus_def failing_saver_def newStatusUpdate_def
        newTestTask_def working_task_def NewManager_def)

section \<open>Properties of NewSubmittedTask and of the request handler\<close>

lemma OnSendMessage_missing_TaskID:
  "msg_TaskID (msp_Message message) = [] \<Longrightarrow>
   OnSendMessage h c message w = (Returns (Inl ErrMissingTaskID), w)"
  by (simp add: OnSendMessage_def)

lemma OnSendMessage_GetOrCreate_fails:
  "msg_TaskID (msp_Message message) \<noteq> [] \<Longrightarrow>
   queueManager_GetOrCreate h c (msg_TaskID (msp_Message message)) w = (Returns (Inl err), w1) \<Longrightarrow>
   OnSendMessage h c message w = (Returns (Inl (ErrFailedToRetrieveQueue err)), w1)"
  by (simp add: OnSendMessage_def)

lemma OnSendMessage_Execute_fails:
  "msg_TaskID (msp_Message message) \<noteq> [] \<Longrightarrow>
   queueManager_GetOrCreate h c (msg_TaskID (msp_Message message)) w = (Returns (Inr queue), w1) \<Longrightarrow>
   executor_Execute h c \<lparr>rc_Request = message, rc_TaskID = msg_TaskID (msp_Message message)\<rparr>
     queue w1 = (Returns (Some err), w2) \<Longrightarrow>
   OnSendMessage h c message w = (Returns (Inl err), w2)"
  by (simp add: OnSendMessage_def)

lemma OnSendMessage_Read_fails:
  "msg_TaskID (msp_Message message) \<noteq> [] \<Longrightarrow>
   queueManager_GetOrCreate h c (msg_TaskID (msp_Message message)) w = (Returns (Inr queue), w1) \<Longrightarrow>
   executor_Execute h c \<lparr>rc_Request = message, rc_TaskID = msg_TaskID (msp_Message message)\<rparr>
     queue w1 = (Returns None, w2) \<Longrightarrow>
   queue_Read h queue c w2 = (Returns (Inl err), w3) \<Longrightarrow>
   OnSendMessage h c message w = (Returns (Inl (ErrFailedToReadEvent err)), w3)"
  by (simp add: OnSendMessage_def)

text \<open>
  Claim C9.  For every message, NewSubmittedTask returns a task in state Submitted whose
  History is that one message; its ContextID is the message's when that is not empty
  and the one drawn from NewContextID otherwise; its ID is the one drawn from NewTaskID
  (after the context id, when one was drawn), whatever the message holds.
\<close>

theorem NewSubmittedTask_spec:
  "\<exists>t g'. NewSubmittedTask NewTaskID NewContextID (Some m) g = (Returns t, g') \<and>
     ts_State (task_Status t) = TaskStateSubmitted \<and>
     task_History t = [Some m] \<and>
     task_ContextID t = (if msg_ContextID m = [] then fst (NewContextID g) else msg_ContextID m) \<and>
     task_ID t = fst (NewTaskID (if msg_ContextID m = [] then snd (NewContextID g) else g))"
  by (simp add: NewSubmittedTask_def Let_def split: prod.splits)

text \<open>
  Claim C8.  The message has a task id, GetOrCreate returns a queue and Execute returns
  nil.  Then the handler calls Read once: when that Read returns the event \<open>event\<close> in the
  state \<open>w3\<close>, the handler returns in \<open>w3\<close>, with \<open>event\<close> as its result when the event
  is a Message or a Task, and otherwise with the unexpected-event-type error that
  carries the type name of the event.
\<close>

theorem OnSendMessage_result:
  assumes "msg_TaskID (msp_Message message) \<noteq> []"
    and "queueManager_GetOrCreate h c (msg_TaskID (msp_Message message)) w = (Returns (Inr queue), w1)"
    and "executor_Execute h c
           \<lparr>rc_Request = message, rc_TaskID = msg_TaskID (msp_Message message)\<rparr> queue w1 =
         (Returns None, w2)"
    and "queue_Read h queue c w2 = (Returns (Inr event), w3)"
  shows "OnSendMessage h c message w =
           (Returns (if isSendMessageResult event then Inr event
                     else Inl (ErrHandlerUnexpectedEventType (type_name event))), w3)"
  using assms by (simp add: OnSendMessage_def)

theorem OnSendMessage_result_witness:
  "fst (OnSendMessage update_then_message_handler (Ctx None) test_request NewInMemoryManager) =
     Returns (Inl (ErrHandlerUnexpectedEventType ''*a2a.TaskStatusUpdateEvent'')) \<and>
   map_option events
     (queue_store
        (snd (OnSendMessage update_then_message_handler (Ctx None) test_request NewInMemoryManager))
        0) =
     Some [EvMessage (msp_Message test_request)]"
proof -
  let ?h = update_then_message_handler
  let ?q = "NewInMemoryQueue defaultMaxQueueSize"
  let ?upd = "EvStatusUpdate working_update"
  let ?msg = "EvMessage (msp_Message test_request)"
  let ?w1 = "\<lparr>mgr_mu = False, mgr_queues = [''test-task'' \<mapsto> 0],
              queue_store = [0 \<mapsto> ?q], next_queue = Suc 0\<rparr>"
  let ?w2 = "?w1\<lparr>queue_store := [0 \<mapsto> ?q\<lparr>events := [?upd, ?msg]\<rparr>]\<rparr>"
  let ?w3 = "?w1\<lparr>queue_store := [0 \<mapsto> ?q\<lparr>events := [?msg]\<rparr>]\<rparr>"
  have tid: "msg_TaskID (msp_Message test_request) = ''test-task''"
    by (simp add: test_request_def)
  have nonempty: "msg_TaskID (msp_Message test_request) \<noteq> []"
    by (simp add: tid)
  have g: "queueManager_GetOrCreate ?h (Ctx None) (msg_TaskID (msp_Message test_request))
             NewInMemoryManager = (Returns (Inr 0), ?w1)"
    by (simp add: tid update_then_message_handler_def GetOrCreate_def NewInMemoryManager_def)
  have x: "executor_Execute ?h (Ctx None)
             \<lparr>rc_Request = test_request, rc_TaskID = msg_TaskID (msp_Message test_request)\<rparr> 0 ?w1 =
           (Returns None, ?w2)"
    by (simp add: update_then_message_handler_def Write_to_def Write_def acquireWithContext_def
          select_def release_def ctx_Done_def NewInMemoryQueue_def newSemaphore_def
          defaultMaxQueueSize_def)
  have r: "queue_Read ?h 0 (Ctx None) ?w2 = (Returns (Inr ?upd), ?w3)"
    by (simp add: update_then_message_handler_def Read_from_def Read_def select_def ctx_Done_def
          NewInMemoryQueue_def)
  from OnSendMessage_result [OF nonempty g x r]
  show ?thesis by simp
qed

section \<open>Properties of the metadata validator\<close>
















text \<open>The tests of the validator, replayed.\<close>

lemma validateMeta_deep_circular: "validateMeta deep_circular_store 3 = Some ErrCircularReference"
  by (simp add: validateMeta_def deep_circular_store_def)

lemma validateMeta_forbidden:
  "validateMeta forbidden_store 1 = Some (ErrNotPermitted ''taskstore.forbiddenType'')"
  by (simp add: validateMeta_def forbidden_store_def)

lemma validateMeta_nil_map: "validateMeta [] 0 = None"
  by (simp add: validateMeta_def)









end
